theory Spec2Isabelle
  imports Main "HOL-Library.Multiset"
begin

section \<open>AudioRouter: the routing control plane of App.vue\<close>

text \<open>
  The front end is a Vue component (\<^verbatim>\<open>App.vue\<close>) holding four refs
  (\<^verbatim>\<open>selectedSource\<close>, \<^verbatim>\<open>target_devices\<close>, \<^verbatim>\<open>isRunning\<close>, \<^verbatim>\<open>statusText\<close>), two computed
  lists, and asynchronous functions that talk to the Rust back end through IPC commands.
  Every command answers with \<^verbatim>\<open>Result<T, string>\<close>; \<^verbatim>\<open>unwrap\<close> throws on the error case.

  In the embedding an asynchronous function takes the component state and the answer of each
  command it awaits, and returns the new state with the list of effects it had at the
  boundary (commands issued, console errors, emitted component events), in order.
\<close>

subsection \<open>Types of the generated bindings\<close>

text \<open>
  Modelled from the spec: \<^verbatim>\<open>generated/bindings.ts\<close> is not among the sources; the shapes of
  \<^verbatim>\<open>ChannelMixMode\<close>, \<^verbatim>\<open>UiDataTargetDevice\<close>, \<^verbatim>\<open>Output\<close>, \<^verbatim>\<open>UiData\<close> and \<^verbatim>\<open>General\<close>
  are taken from the data model of the specification and from the fields the code reads.
\<close>

datatype ChannelMixMode =
  Stereo | Left | Right | Center | FrontLeft | FrontRight
  | BackLeft | BackRight | BackSurround | Subwoofer

record UiDataTargetDevice =
  id' :: string
  name :: string
  enabled :: bool
  mix_mode :: ChannelMixMode

record Output =
  device_id :: string
  channel_mode :: ChannelMixMode
  enabled_out :: bool

record UiData =
  ui_target_devices :: "UiDataTargetDevice list"
  is_running :: bool
  source_device :: string

record RoutingParams =
  source_id :: string
  targets :: "(string \<times> ChannelMixMode) list"

record General =
  start_with_windows :: bool
  minimized :: bool
  auto_route :: bool
  language :: string

record TrayLabels =
  show_label :: string
  quit_label :: string

text \<open>\<^verbatim>\<open>Result<T, string>\<close> of \<^verbatim>\<open>utils/ipc.ts\<close>: status "ok" with data, or "error" with a message.\<close>

datatype 'a result = Ok 'a | Err string

text \<open>The commands of the IPC boundary, with the arguments the front end passes.\<close>

datatype command =
  GetUiData
  | SaveRoutingConfig string "Output list"
  | StartRouting RoutingParams
  | StopRouting
  | UpdateGeneralConfig General
  | UpdateTrayMenu TrayLabels

text \<open>
  What a function does at its boundary: a command issued, a \<^verbatim>\<open>console.error\<close> line (its
  fixed prefix and the message of the caught error), the global i18n locale assigned, a
  component event emitted.
\<close>

datatype effect =
  Call command
  | ConsoleError string string
  | SetLocale string
  | Emit string

text \<open>
  \<^verbatim>\<open>statusText\<close> holds \<^verbatim>\<open>t(key, params)\<close> or a template string; the locale tables are not
  among the sources, so a status is the message key with its parameters.
\<close>

datatype status =
  StatusReady
  | FoundDevices nat
  | ErrorLoadingDevices
  | SelectDevice
  | Starting
  | Stopping
  | RunningOn nat
  | ErrorStarting string
  | ErrorStopping string

subsection \<open>Component state\<close>

text \<open>
  The refs of \<^verbatim>\<open>App.vue\<close>. \<open>watching\<close> says that the two \<^verbatim>\<open>watch\<close> calls of
  \<^verbatim>\<open>onMounted\<close> have run; \<open>unlistenStart\<close> and \<open>unlistenStop\<close> say that the variable
  of that name is no longer \<^verbatim>\<open>null\<close>, that is, the listener is registered.
\<close>

record App =
  selectedSource :: string
  target_devices :: "UiDataTargetDevice list"
  isRunning :: bool
  statusText :: status
  showSettings :: bool
  watching :: bool
  unlistenStart :: bool
  unlistenStop :: bool

definition initial :: App where
  "initial = \<lparr> selectedSource = '''', target_devices = [], isRunning = False,
     statusText = StatusReady, showSettings = False, watching = False,
     unlistenStart = False, unlistenStop = False \<rparr>"

subsection \<open>Array.prototype.sort with a comparator\<close>

text \<open>
  \<^verbatim>\<open>sort(cmp)\<close> is stable: \<open>a\<close> goes before \<open>b\<close> when \<open>cmp a b < 0\<close>, after it when
  \<open>cmp a b > 0\<close>, and elements that compare equal keep their order. The elements are
  inserted from the right, each before the first element it does not have to follow.
\<close>

fun insort_by :: "('a \<Rightarrow> 'a \<Rightarrow> int) \<Rightarrow> 'a \<Rightarrow> 'a list \<Rightarrow> 'a list" where
  "insort_by cmp x [] = [x]"
| "insort_by cmp x (y # ys) =
     (if cmp x y \<le> 0 then x # y # ys else y # insort_by cmp x ys)"

definition array_sort :: "('a \<Rightarrow> 'a \<Rightarrow> int) \<Rightarrow> 'a list \<Rightarrow> 'a list" where
  "array_sort cmp xs = foldr (insort_by cmp) xs []"

text \<open>
  \<^verbatim>\<open>String.prototype.localeCompare\<close> is the platform's collation and is a parameter of
  the model. A collation is a consistent comparator: the sign flips when the arguments are
  swapped, and "not after" is transitive. What the call of the code computes on ASCII
  names is \<open>tertiary\<close> below.
\<close>

type_synonym collation = "string \<Rightarrow> string \<Rightarrow> int"

definition consistent :: "('a \<Rightarrow> 'a \<Rightarrow> int) \<Rightarrow> bool" where
  "consistent cmp \<longleftrightarrow>
     (\<forall>a b. (cmp a b < 0) = (0 < cmp b a)) \<and>
     (\<forall>a b c. cmp a b \<le> 0 \<longrightarrow> cmp b c \<le> 0 \<longrightarrow> cmp a c \<le> 0)"

text \<open>The comparator of line 28: \<^verbatim>\<open>(a, b) => a.name.localeCompare(b.name)\<close>.\<close>

definition by_name :: "collation \<Rightarrow> UiDataTargetDevice \<Rightarrow> UiDataTargetDevice \<Rightarrow> int" where
  "by_name localeCompare a b = localeCompare (name a) (name b)"

subsection \<open>Computed lists\<close>

definition sorted_target_devices :: "collation \<Rightarrow> App \<Rightarrow> UiDataTargetDevice list" where
  "sorted_target_devices localeCompare st =
     array_sort (by_name localeCompare) (target_devices st)"

definition filtered_target_devices :: "collation \<Rightarrow> App \<Rightarrow> UiDataTargetDevice list" where
  "filtered_target_devices localeCompare st =
     filter (\<lambda>d. id' d \<noteq> selectedSource st) (sorted_target_devices localeCompare st)"

subsection \<open>saveRoutingConfig\<close>

definition output_of :: "UiDataTargetDevice \<Rightarrow> Output" where
  "output_of d = \<lparr> device_id = id' d, channel_mode = mix_mode d, enabled_out = enabled d \<rparr>"

definition saveRoutingConfig :: "App \<Rightarrow> unit result \<Rightarrow> App \<times> effect list" where
  "saveRoutingConfig st r =
     (let outputs = map output_of (target_devices st);
          call = Call (SaveRoutingConfig (selectedSource st) outputs)
      in case r of
           Ok _ \<Rightarrow> (st, [call])
         | Err e \<Rightarrow> (st, [call, ConsoleError ''Failed to save routing config:'' e]))"

subsection \<open>refreshUI\<close>

text \<open>
  The body runs inside \<^verbatim>\<open>try\<close>. \<^verbatim>\<open>unwrap\<close> throws before any assignment when the command
  fails. \<^verbatim>\<open>sorted_target_devices.value[0].id\<close> throws on an empty array, after the two
  assignments before it; the \<^verbatim>\<open>catch\<close> then sets the error status.
\<close>

definition refreshUI :: "collation \<Rightarrow> App \<Rightarrow> UiData result \<Rightarrow> App \<times> effect list" where
  "refreshUI localeCompare st r =
     (case r of
        Err e \<Rightarrow> (st\<lparr> statusText := ErrorLoadingDevices \<rparr>, [Call GetUiData])
      | Ok uiData \<Rightarrow>
          (let st1 = st\<lparr> target_devices := ui_target_devices uiData,
                         isRunning := is_running uiData \<rparr>;
               found = FoundDevices (length (target_devices st1))
           in if source_device uiData \<noteq> [] \<and>
                 list_ex (\<lambda>d. id' d = source_device uiData) (ui_target_devices uiData)
              then (st1\<lparr> selectedSource := source_device uiData, statusText := found \<rparr>,
                    [Call GetUiData])
              else if length (target_devices st1) > 0 \<and> selectedSource st1 = []
              then (case sorted_target_devices localeCompare st1 of
                      [] \<Rightarrow> (st1\<lparr> statusText := ErrorLoadingDevices \<rparr>, [Call GetUiData])
                    | d # _ \<Rightarrow> (st1\<lparr> selectedSource := id' d, statusText := found \<rparr>,
                               [Call GetUiData]))
              else (st1\<lparr> statusText := found \<rparr>, [Call GetUiData])))"

subsection \<open>startRouting and stopRouting\<close>

definition start_targets :: "collation \<Rightarrow> App \<Rightarrow> (string \<times> ChannelMixMode) list" where
  "start_targets localeCompare st =
     map (\<lambda>d. (id' d, mix_mode d)) (filter enabled (filtered_target_devices localeCompare st))"

definition startRouting :: "collation \<Rightarrow> App \<Rightarrow> unit result \<Rightarrow> App \<times> effect list" where
  "startRouting localeCompare st r =
     (let targets = start_targets localeCompare st
      in if length targets = 0 then (st\<lparr> statusText := SelectDevice \<rparr>, [])
         else
           (let call = Call (StartRouting \<lparr> source_id = selectedSource st, targets = targets \<rparr>)
            in case r of
                 Ok _ \<Rightarrow> (st\<lparr> statusText := Starting \<rparr>, [call])
               | Err e \<Rightarrow> (st\<lparr> statusText := ErrorStarting e \<rparr>, [call])))"

definition stopRouting :: "App \<Rightarrow> unit result \<Rightarrow> App \<times> effect list" where
  "stopRouting st r =
     (case r of
        Ok _ \<Rightarrow> (st\<lparr> statusText := Stopping \<rparr>, [Call StopRouting])
      | Err e \<Rightarrow> (st\<lparr> statusText := ErrorStopping e \<rparr>, [Call StopRouting]))"

subsection \<open>Listeners, watchers and the events of the component\<close>

text \<open>
  The two watchers of \<^verbatim>\<open>onMounted\<close> both call \<^verbatim>\<open>saveRoutingConfig\<close>. The first watches
  the value of \<^verbatim>\<open>selectedSource\<close> and fires when the value has changed; the second watches
  \<^verbatim>\<open>target_devices\<close> deeply and fires when the array is replaced or a field of an element
  is written with a new value. Their callbacks run after the synchronous code that made the
  change, so each saves the state as it is then. Before the \<^verbatim>\<open>watch\<close> calls nothing fires.
\<close>

definition run_watchers :: "App \<Rightarrow> bool \<Rightarrow> bool \<Rightarrow> unit result \<Rightarrow> effect list" where
  "run_watchers st source_changed devices_changed r =
     (if watching st
      then (if source_changed then snd (saveRoutingConfig st r) else []) @
           (if devices_changed then snd (saveRoutingConfig st r) else [])
      else [])"

text \<open>
  What can happen to the mounted component: the user picks an option of the source select
  (the options are the ids of the devices), toggles the checkbox or changes the mix mode of
  the card of the device at a position of \<^verbatim>\<open>target_devices\<close> (a card exists for the devices
  of \<^verbatim>\<open>filtered_target_devices\<close>; the mix-mode select is disabled on a disabled device),
  clicks refresh, start (rendered when not running) or stop (rendered when running), opens
  or closes the settings, or the back end emits \<^verbatim>\<open>routing-started\<close> / \<^verbatim>\<open>routing-stopped\<close>.
  Commands carry the answer of the back end; a click is served as one step, the command
  and its answer together.
\<close>

datatype event =
  SelectSource string
  | ToggleEnabled nat
  | UpdateMixMode nat ChannelMixMode
  | ClickRefresh "UiData result"
  | ClickStart "unit result"
  | ClickStop "unit result"
  | ClickSettings
  | CloseSettings
  | RoutingStarted
  | RoutingStopped

definition on_routing_started :: "collation \<Rightarrow> App \<Rightarrow> App" where
  "on_routing_started localeCompare st =
     st\<lparr> isRunning := True,
         statusText := RunningOn (length (filter enabled (filtered_target_devices localeCompare st))) \<rparr>"

definition on_routing_stopped :: "App \<Rightarrow> App" where
  "on_routing_stopped st = st\<lparr> isRunning := False, statusText := StatusReady \<rparr>"

text \<open>The second argument of a step is the answer to the save commands the step triggers.\<close>

fun step :: "collation \<Rightarrow> App \<Rightarrow> event \<times> unit result \<Rightarrow> App \<times> effect list" where
  "step lc st (SelectSource x, sr) =
     (if list_ex (\<lambda>d. id' d = x) (target_devices st)
      then (let st' = st\<lparr> selectedSource := x \<rparr>
            in (st', run_watchers st' (x \<noteq> selectedSource st) False sr))
      else (st, []))"
| "step lc st (ToggleEnabled k, sr) =
     (if k < length (target_devices st) \<and> id' (target_devices st ! k) \<noteq> selectedSource st
      then (let d = target_devices st ! k;
                st' = st\<lparr> target_devices := (target_devices st)[k := d\<lparr> enabled := \<not> enabled d \<rparr>] \<rparr>
            in (st', run_watchers st' False True sr))
      else (st, []))"
| "step lc st (UpdateMixMode k m, sr) =
     (if k < length (target_devices st) \<and> id' (target_devices st ! k) \<noteq> selectedSource st
         \<and> enabled (target_devices st ! k)
      then (let d = target_devices st ! k;
                st' = st\<lparr> target_devices := (target_devices st)[k := d\<lparr> mix_mode := m \<rparr>] \<rparr>
            in (st', run_watchers st' False (m \<noteq> mix_mode d) sr))
      else (st, []))"
| "step lc st (ClickRefresh r, sr) =
     (let (st', effs) = refreshUI lc st r
      in (st', effs @ run_watchers st' (selectedSource st' \<noteq> selectedSource st)
                        (case r of Ok _ \<Rightarrow> True | Err _ \<Rightarrow> False) sr))"
| "step lc st (ClickStart r, sr) = (if isRunning st then (st, []) else startRouting lc st r)"
| "step lc st (ClickStop r, sr) = (if isRunning st then stopRouting st r else (st, []))"
| "step lc st (ClickSettings, sr) = (st\<lparr> showSettings := True \<rparr>, [])"
| "step lc st (CloseSettings, sr) = (st\<lparr> showSettings := False \<rparr>, [])"
| "step lc st (RoutingStarted, sr) =
     (if unlistenStart st then (on_routing_started lc st, []) else (st, []))"
| "step lc st (RoutingStopped, sr) =
     (if unlistenStop st then (on_routing_stopped st, []) else (st, []))"

fun run :: "collation \<Rightarrow> App \<Rightarrow> (event \<times> unit result) list \<Rightarrow> App \<times> effect list" where
  "run lc st [] = (st, [])"
| "run lc st (e # es) =
     (let (st1, effs1) = step lc st e; (st2, effs2) = run lc st1 es in (st2, effs1 @ effs2))"

subsection \<open>onMounted\<close>

text \<open>
  \<^verbatim>\<open>onMounted\<close> awaits \<^verbatim>\<open>refreshUI\<close> (which catches its own errors), awaits
  \<^verbatim>\<open>checkForUpdates\<close> (no command of the boundary, no write to the refs), then registers
  the two watchers and the two listeners. While it awaits, events of the component are
  served: \<open>mount\<close> takes those that arrive before the answer of \<^verbatim>\<open>get_ui_data\<close> and
  those that arrive between the refresh and the registration. The command is issued
  first; the refs are written when its answer is there.
\<close>

definition register_observers :: "App \<Rightarrow> App" where
  "register_observers st = st\<lparr> watching := True, unlistenStart := True, unlistenStop := True \<rparr>"

definition onMounted :: "collation \<Rightarrow> App \<Rightarrow> UiData result \<Rightarrow> App \<times> effect list" where
  "onMounted lc st r = (let (st1, effs) = refreshUI lc st r in (register_observers st1, effs))"

definition mount ::
  "collation \<Rightarrow> App \<Rightarrow> (event \<times> unit result) list \<Rightarrow> UiData result
     \<Rightarrow> (event \<times> unit result) list \<Rightarrow> App \<times> effect list" where
  "mount lc st before r after =
     (let (st1, effs1) = run lc st before;
          (st2, effs2) = refreshUI lc st1 r;
          (st3, effs3) = run lc st2 after
      in (register_observers st3, effs2 @ effs1 @ effs3))"

fun is_save :: "effect \<Rightarrow> bool" where
  "is_save (Call (SaveRoutingConfig s outs)) = True"
| "is_save e = False"

fun is_call :: "effect \<Rightarrow> bool" where
  "is_call (Call c) = True"
| "is_call e = False"

text \<open>The events that write \<^verbatim>\<open>selectedSource\<close> or \<^verbatim>\<open>target_devices\<close>.\<close>

fun mutating :: "event \<Rightarrow> bool" where
  "mutating (SelectSource x) = True"
| "mutating (ToggleEnabled k) = True"
| "mutating (UpdateMixMode k m) = True"
| "mutating (ClickRefresh r) = True"
| "mutating e = False"

subsection \<open>The computed sort on the arrays of the heap\<close>





subsection \<open>SettingsModal.vue and utils/language.ts\<close>

text \<open>
  The modal edits \<open>draftGeneral\<close>. \<open>committed\<close> is the general section the back end
  holds and \<open>i18n_locale\<close> the global i18n locale.
  Modelled from the spec: the Rust side of \<^verbatim>\<open>update_general_config\<close> is not among the
  sources; when the command answers ok the committed settings are the argument it was given.
  The message tables of the locales are not among the sources either: \<open>tr\<close> maps a locale
  and a key to the label.
\<close>

record Settings =
  draftGeneral :: General
  committed :: General
  i18n_locale :: string

definition updateAppLanguage ::
  "(string \<Rightarrow> string \<Rightarrow> string) \<Rightarrow> Settings \<Rightarrow> string \<Rightarrow> unit result
     \<Rightarrow> Settings \<times> effect list \<times> unit result" where
  "updateAppLanguage tr w lang r =
     (let w1 = w\<lparr> i18n_locale := lang \<rparr>;
          labels = \<lparr> show_label = tr (i18n_locale w1) ''Show'', quit_label = tr (i18n_locale w1) ''Exit'' \<rparr>
      in (w1, [SetLocale lang, Call (UpdateTrayMenu labels)], r))"

definition updateGeneralConfig ::
  "(string \<Rightarrow> string \<Rightarrow> string) \<Rightarrow> Settings \<Rightarrow> unit result \<Rightarrow> unit result
     \<Rightarrow> Settings \<times> effect list" where
  "updateGeneralConfig tr w r_save r_tray =
     (let save = Call (UpdateGeneralConfig (draftGeneral w))
      in case r_save of
           Err e \<Rightarrow> (w, [save, ConsoleError ''Failed to save config:'' e])
         | Ok _ \<Rightarrow>
             (let w1 = w\<lparr> committed := draftGeneral w \<rparr>;
                  lang = (if language (draftGeneral w1) = [] then ''en''
                          else language (draftGeneral w1));
                  (w2, effs, res) = updateAppLanguage tr w1 lang r_tray
              in case res of
                   Ok _ \<Rightarrow> (w2, save # effs @ [Emit ''close''])
                 | Err e \<Rightarrow> (w2, save # effs @ [ConsoleError ''Failed to save config:'' e])))"

text \<open>The close button and the backdrop: \<^verbatim>\<open>emit('close')\<close> and nothing else.\<close>

definition cancel :: "Settings \<Rightarrow> Settings \<times> effect list" where
  "cancel w = (w, [Emit ''close''])"

text \<open>
  For stating what a commit does: the language it switches to,
  \<^verbatim>\<open>draftGeneral.value.language || "en"\<close>, and the effects of a commit whose save
  succeeded, up to the answer of the tray command.
\<close>

definition commit_language :: "Settings \<Rightarrow> string" where
  "commit_language w =
     (if language (draftGeneral w) = [] then ''en'' else language (draftGeneral w))"

definition commit_effects :: "(string \<Rightarrow> string \<Rightarrow> string) \<Rightarrow> Settings \<Rightarrow> effect list" where
  "commit_effects tr w =
     [Call (UpdateGeneralConfig (draftGeneral w)),
      SetLocale (commit_language w),
      Call (UpdateTrayMenu \<lparr> show_label = tr (commit_language w) ''Show'',
                             quit_label = tr (commit_language w) ''Exit'' \<rparr>)]"

subsection \<open>localeCompare without options\<close>

text \<open>
  \<^verbatim>\<open>a.name.localeCompare(b.name)\<close> passes no locale and no options, so the names are
  compared by the default collator at its default strength: first without regard to case,
  a shorter name before its extensions; names that are equal so far are then told apart by
  case, lower case before upper case at the first place where they differ. \<open>tertiary\<close>
  is that comparison on ASCII names: symbols before digits before letters, letters in
  alphabetical order. It is used to evaluate the model on concrete device lists.
\<close>

fun compare_codes :: "nat list \<Rightarrow> nat list \<Rightarrow> int" where
  "compare_codes [] [] = 0"
| "compare_codes [] (y # ys) = - 1"
| "compare_codes (x # xs) [] = 1"
| "compare_codes (x # xs) (y # ys) =
     (if x < y then - 1 else if y < x then 1 else compare_codes xs ys)"

definition primary :: "char \<Rightarrow> nat" where
  "primary c =
     (let n = (of_char c :: nat)
      in if 65 \<le> n \<and> n \<le> 90 then 1000 + (n + 32)
         else if 97 \<le> n \<and> n \<le> 122 then 1000 + n
         else if 48 \<le> n \<and> n \<le> 57 then 500 + n
         else n)"

definition case_weight :: "char \<Rightarrow> nat" where
  "case_weight c = (let n = (of_char c :: nat) in if 65 \<le> n \<and> n \<le> 90 then 1 else 0)"

definition tertiary :: collation where
  "tertiary a b =
     (let p = compare_codes (map primary a) (map primary b)
      in if p \<noteq> 0 then p else compare_codes (map case_weight a) (map case_weight b))"

subsection \<open>What the specification describes\<close>

text \<open>
  Following the words of the specification, not the code: the outputs of a saved
  configuration as "the projection of the eligible and enabled targets".
\<close>

definition spec_outputs :: "collation \<Rightarrow> App \<Rightarrow> Output list" where
  "spec_outputs lc st = map output_of (filter enabled (filtered_target_devices lc st))"




subsection \<open>Sample devices\<close>

definition device :: "string \<Rightarrow> string \<Rightarrow> bool \<Rightarrow> ChannelMixMode \<Rightarrow> UiDataTargetDevice" where
  "device i n e m = \<lparr> id' = i, name = n, enabled = e, mix_mode = m \<rparr>"

definition mounted :: "string \<Rightarrow> UiDataTargetDevice list \<Rightarrow> App" where
  "mounted src devs = register_observers (initial\<lparr> selectedSource := src, target_devices := devs \<rparr>)"

section \<open>Properties of the sort\<close>

lemma mset_insort_by: "mset (insort_by cmp x xs) = add_mset x (mset xs)"
  by (induction xs) auto

lemma mset_array_sort: "mset (array_sort cmp xs) = mset xs"
  unfolding array_sort_def by (induction xs) (auto simp: mset_insort_by)

lemma set_array_sort: "set (array_sort cmp xs) = set xs"
  using mset_array_sort [of cmp xs] by (metis set_mset_mset)


lemma array_sort_Nil: "array_sort cmp [] = []"
  by (simp add: array_sort_def)

lemma array_sort_Cons: "array_sort cmp (x # xs) = insort_by cmp x (array_sort cmp xs)"
  by (simp add: array_sort_def)



lemma consistent_trans: "consistent cmp \<Longrightarrow> cmp a b \<le> 0 \<Longrightarrow> cmp b c \<le> 0 \<Longrightarrow> cmp a c \<le> 0"
  unfolding consistent_def by blast

lemma consistent_flip: "consistent cmp \<Longrightarrow> 0 < cmp a b \<Longrightarrow> cmp b a \<le> 0"
  unfolding consistent_def by (metis order_less_imp_le)

lemma consistent_eq_sym: "consistent cmp \<Longrightarrow> cmp a b = 0 \<Longrightarrow> cmp b a = 0"
  unfolding consistent_def by (metis less_irrefl linorder_neqE_linordered_idom)

lemma sorted_insort_by:
  assumes "consistent cmp" and "sorted_wrt (\<lambda>a b. cmp a b \<le> 0) xs"
  shows "sorted_wrt (\<lambda>a b. cmp a b \<le> 0) (insort_by cmp x xs)"
  using assms(2)
proof (induction xs)
  case Nil
  then show ?case by simp
next
  case (Cons y ys)
  show ?case
  proof (cases "cmp x y \<le> 0")
    case True
    have "\<forall>z \<in> set ys. cmp x z \<le> 0"
      using Cons.prems True consistent_trans [OF assms(1)] by auto
    with True Cons.prems show ?thesis by simp
  next
    case False
    then have yx: "cmp y x \<le> 0" using consistent_flip [OF assms(1)] by simp
    have "set (insort_by cmp x ys) = insert x (set ys)"
      using mset_insort_by [of cmp x ys] by (metis set_mset_add_mset_insert set_mset_mset)
    with False yx Cons show ?thesis by auto
  qed
qed

lemma sorted_array_sort:
  "consistent cmp \<Longrightarrow> sorted_wrt (\<lambda>a b. cmp a b \<le> 0) (array_sort cmp xs)"
  by (induction xs) (simp_all add: array_sort_Nil array_sort_Cons sorted_insort_by)




lemma consistent_by_name: "consistent lc \<Longrightarrow> consistent (by_name lc)"
  unfolding consistent_def by_name_def by blast

lemma compare_codes_flip: "(compare_codes a b < 0) = (0 < compare_codes b a)"
  by (induction a b rule: compare_codes.induct) auto

lemma compare_codes_Cons_le:
  "compare_codes (x # xs) (y # ys) \<le> 0 \<longleftrightarrow> x < y \<or> (x = y \<and> compare_codes xs ys \<le> 0)"
  by auto

lemma compare_codes_trans:
  "compare_codes a b \<le> 0 \<Longrightarrow> compare_codes b c \<le> 0 \<Longrightarrow> compare_codes a c \<le> 0"
proof (induction a arbitrary: b c)
  case Nil
  then show ?case by (cases c) simp_all
next
  case (Cons x xs)
  from Cons.prems(1) obtain y ys where b: "b = y # ys" by (cases b) auto
  from Cons.prems(2) b obtain z zs where c: "c = z # zs" by (cases c) auto
  have xy: "x < y \<or> (x = y \<and> compare_codes xs ys \<le> 0)"
    using Cons.prems(1) unfolding b compare_codes_Cons_le .
  have yz: "y < z \<or> (y = z \<and> compare_codes ys zs \<le> 0)"
    using Cons.prems(2) unfolding b c compare_codes_Cons_le .
  have "x < z \<or> (x = z \<and> compare_codes xs zs \<le> 0)"
    using xy yz Cons.IH [of ys zs] by auto
  then show ?case unfolding c compare_codes_Cons_le .
qed

lemma consistent_zero_sym: "consistent cmp \<Longrightarrow> (cmp a b = 0) = (cmp b a = 0)"
  using consistent_eq_sym [of cmp a b] consistent_eq_sym [of cmp b a] by blast

lemma consistent_less_le:
  assumes "consistent cmp" and "cmp a b < 0" and "cmp b c \<le> 0"
  shows "cmp a c < 0"
proof (rule ccontr)
  assume "\<not> cmp a c < 0"
  then have "\<not> 0 < cmp c a" using assms(1) unfolding consistent_def by blast
  then have "cmp c a \<le> 0" by simp
  with assms(3) have "cmp b a \<le> 0" using consistent_trans [OF assms(1)] by blast
  then have "\<not> 0 < cmp b a" by simp
  then have "\<not> cmp a b < 0" using assms(1) unfolding consistent_def by blast
  with assms(2) show False by simp
qed

lemma consistent_le_less:
  assumes "consistent cmp" and "cmp a b \<le> 0" and "cmp b c < 0"
  shows "cmp a c < 0"
proof (rule ccontr)
  assume "\<not> cmp a c < 0"
  then have "\<not> 0 < cmp c a" using assms(1) unfolding consistent_def by blast
  then have "cmp c a \<le> 0" by simp
  with assms(2) have "cmp c b \<le> 0" using consistent_trans [OF assms(1)] by blast
  then have "\<not> 0 < cmp c b" by simp
  then have "\<not> cmp b c < 0" using assms(1) unfolding consistent_def by blast
  with assms(3) show False by simp
qed

lemma consistent_lex:
  assumes p: "consistent p" and t: "consistent t"
  shows "consistent (\<lambda>a b. if p a b \<noteq> 0 then p a b else t a b)"
  unfolding consistent_def
proof (intro conjI allI impI)
  fix a b
  have flip_p: "(p a b < 0) = (0 < p b a)" using p unfolding consistent_def by blast
  have flip_t: "(t a b < 0) = (0 < t b a)" using t unfolding consistent_def by blast
  show "((if p a b \<noteq> 0 then p a b else t a b) < 0) = (0 < (if p b a \<noteq> 0 then p b a else t b a))"
    using flip_p flip_t consistent_zero_sym [OF p, of a b] by auto
next
  fix a b c
  assume ab: "(if p a b \<noteq> 0 then p a b else t a b) \<le> 0"
    and bc: "(if p b c \<noteq> 0 then p b c else t b c) \<le> 0"
  have pab: "p a b \<le> 0" using ab by (cases "p a b = 0") simp_all
  have pbc: "p b c \<le> 0" using bc by (cases "p b c = 0") simp_all
  have pac: "p a c \<le> 0" using consistent_trans [OF p pab pbc] .
  show "(if p a c \<noteq> 0 then p a c else t a c) \<le> 0"
  proof (cases "p a c = 0")
    case False
    with pac show ?thesis by simp
  next
    case True
    have ab0: "p a b = 0"
    proof (rule ccontr)
      assume "p a b \<noteq> 0"
      with pab have "p a b < 0" by simp
      from consistent_less_le [OF p this pbc] True show False by simp
    qed
    have bc0: "p b c = 0"
    proof (rule ccontr)
      assume "p b c \<noteq> 0"
      with pbc have "p b c < 0" by simp
      from consistent_le_less [OF p pab this] True show False by simp
    qed
    have "t a b \<le> 0" using ab ab0 by simp
    moreover have "t b c \<le> 0" using bc bc0 by simp
    ultimately have "t a c \<le> 0" using consistent_trans [OF t] by blast
    with True show ?thesis by simp
  qed
qed

lemma consistent_compare_codes: "consistent (\<lambda>a b. compare_codes (f a) (f b))"
  unfolding consistent_def using compare_codes_flip compare_codes_trans by blast

lemma consistent_tertiary: "consistent tertiary"
proof -
  have "tertiary = (\<lambda>a b. if compare_codes (map primary a) (map primary b) \<noteq> 0
      then compare_codes (map primary a) (map primary b)
      else compare_codes (map case_weight a) (map case_weight b))"
    by (intro ext) (simp add: tertiary_def Let_def)
  then show ?thesis
    using consistent_lex [OF consistent_compare_codes [of "map primary"]
        consistent_compare_codes [of "map case_weight"]]
    by simp
qed


section \<open>What the functions and the events leave alone\<close>

lemma saveRoutingConfig_state: "fst (saveRoutingConfig st r) = st"
  by (cases r) (simp_all add: saveRoutingConfig_def)

lemma saveRoutingConfig_calls:
  "filter is_call (snd (saveRoutingConfig st r)) =
     [Call (SaveRoutingConfig (selectedSource st) (map output_of (target_devices st)))]"
  by (cases r) (simp_all add: saveRoutingConfig_def)

lemma saveRoutingConfig_saves:
  "e \<in> set (snd (saveRoutingConfig st r)) \<Longrightarrow> is_save e \<Longrightarrow>
     e = Call (SaveRoutingConfig (selectedSource st) (map output_of (target_devices st)))"
  by (cases r) (auto simp: saveRoutingConfig_def)

lemma saveRoutingConfig_mem:
  "Call (SaveRoutingConfig (selectedSource st) (map output_of (target_devices st)))
     \<in> set (snd (saveRoutingConfig st r))"
  by (cases r) (simp_all add: saveRoutingConfig_def)


lemma refreshUI_effects: "snd (refreshUI lc st r) = [Call GetUiData]"
  by (cases r) (simp_all add: refreshUI_def Let_def split: list.splits)

lemma refreshUI_Err:
  "refreshUI lc st (Err e) = (st\<lparr> statusText := ErrorLoadingDevices \<rparr>, [Call GetUiData])"
  by (simp add: refreshUI_def)

lemma refreshUI_watching: "watching (fst (refreshUI lc st r)) = watching st"
  by (cases r) (simp_all add: refreshUI_def Let_def split: list.splits)

lemma refreshUI_isRunning: "isRunning (fst (refreshUI lc st (Ok ui))) = is_running ui"
  by (simp add: refreshUI_def Let_def split: list.splits)

lemma refreshUI_devices:
  "target_devices (fst (refreshUI lc st (Ok ui))) = ui_target_devices ui"
  by (simp add: refreshUI_def Let_def split: list.splits)

lemma startRouting_isRunning: "isRunning (fst (startRouting lc st r)) = isRunning st"
  by (cases r) (simp_all add: startRouting_def Let_def)

lemma stopRouting_isRunning: "isRunning (fst (stopRouting st r)) = isRunning st"
  by (cases r) (simp_all add: stopRouting_def)

lemma startRouting_frame:
  "selectedSource (fst (startRouting lc st r)) = selectedSource st \<and>
   target_devices (fst (startRouting lc st r)) = target_devices st \<and>
   watching (fst (startRouting lc st r)) = watching st"
  by (cases r) (simp_all add: startRouting_def Let_def)

lemma stopRouting_frame:
  "selectedSource (fst (stopRouting st r)) = selectedSource st \<and>
   target_devices (fst (stopRouting st r)) = target_devices st \<and>
   watching (fst (stopRouting st r)) = watching st"
  by (cases r) (simp_all add: stopRouting_def)

lemma startRouting_no_save: "filter is_save (snd (startRouting lc st r)) = []"
  by (cases r) (simp_all add: startRouting_def Let_def)

lemma stopRouting_no_save: "filter is_save (snd (stopRouting st r)) = []"
  by (cases r) (simp_all add: stopRouting_def)

lemma run_watchers_off: "\<not> watching st \<Longrightarrow> run_watchers st a b r = []"
  by (simp add: run_watchers_def)

lemma step_watching: "watching (fst (step lc st e)) = watching st"
proof (cases e)
  case (Pair ev sr)
  show ?thesis unfolding Pair
    by (cases ev)
      (simp_all add: Let_def split_beta refreshUI_watching startRouting_frame stopRouting_frame
        on_routing_started_def on_routing_stopped_def)
qed

lemma step_off_no_save:
  assumes "\<not> watching st"
  shows "filter is_save (snd (step lc st e)) = []"
proof (cases e)
  case (Pair ev sr)
  show ?thesis unfolding Pair using assms
    by (cases ev)
      (simp_all add: Let_def split_beta refreshUI_effects refreshUI_watching run_watchers_off
        startRouting_no_save stopRouting_no_save)
qed

lemma run_watching: "watching (fst (run lc st es)) = watching st"
proof (induction es arbitrary: st)
  case Nil
  then show ?case by simp
next
  case (Cons e es)
  show ?case using Cons.IH [of "fst (step lc st e)"]
    by (simp add: split_beta Let_def step_watching)
qed

lemma run_off_no_save:
  "\<not> watching st \<Longrightarrow> filter is_save (snd (run lc st es)) = []"
proof (induction es arbitrary: st)
  case Nil
  then show ?case by simp
next
  case (Cons e es)
  have "\<not> watching (fst (step lc st e))" using Cons.prems by (simp add: step_watching)
  from Cons.IH [OF this] Cons.prems show ?case
    by (simp add: split_beta Let_def step_off_no_save)
qed

lemma step_quiet_no_save:
  assumes "\<not> mutating (fst e)"
  shows "filter is_save (snd (step lc st e)) = []"
proof (cases e)
  case (Pair ev sr)
  show ?thesis using assms unfolding Pair
    by (cases ev) (simp_all add: startRouting_no_save stopRouting_no_save)
qed

lemma run_quiet_no_save:
  "\<forall>e \<in> set es. \<not> mutating (fst e) \<Longrightarrow> filter is_save (snd (run lc st es)) = []"
proof (induction es arbitrary: st)
  case Nil
  then show ?case by simp
next
  case (Cons e es)
  then show ?case by (simp add: split_beta Let_def step_quiet_no_save)
qed

section \<open>Evaluating the model\<close>

lemmas eval_defs = mounted_def device_def register_observers_def initial_def run_watchers_def
  saveRoutingConfig_def output_of_def spec_outputs_def filtered_target_devices_def
  sorted_target_devices_def array_sort_def by_name_def tertiary_def primary_def case_weight_def
  start_targets_def startRouting_def stopRouting_def refreshUI_def Let_def

section \<open>What is saved\<close>

lemma saveRoutingConfig_mem':
  "selectedSource st = s \<Longrightarrow> target_devices st = ds \<Longrightarrow>
     Call (SaveRoutingConfig s (map output_of ds)) \<in> set (snd (saveRoutingConfig st r))"
  using saveRoutingConfig_mem [of st r] by simp

lemma step_saves_latest:
  assumes "watching st" and "step lc st (ev, sr) = (st', effs)"
    and "selectedSource st' \<noteq> selectedSource st \<or> target_devices st' \<noteq> target_devices st"
  shows "Call (SaveRoutingConfig (selectedSource st') (map output_of (target_devices st'))) \<in> set effs
     \<and> (\<forall>e \<in> set effs. is_save e \<longrightarrow>
          e = Call (SaveRoutingConfig (selectedSource st') (map output_of (target_devices st'))))"
proof (cases ev)
  case (SelectSource x)
  with assms show ?thesis
    by (auto simp: Let_def run_watchers_def intro!: saveRoutingConfig_mem'
        dest: saveRoutingConfig_saves split: if_splits)
next
  case (ToggleEnabled k)
  with assms show ?thesis
    by (auto simp: Let_def run_watchers_def intro!: saveRoutingConfig_mem'
        dest: saveRoutingConfig_saves split: if_splits)
next
  case (UpdateMixMode k m)
  with assms show ?thesis
    by (auto simp: Let_def run_watchers_def intro!: saveRoutingConfig_mem'
        dest: saveRoutingConfig_saves split: if_splits)
next
  case (ClickRefresh r)
  show ?thesis
  proof (cases r)
    case (Err e)
    with assms ClickRefresh show ?thesis by (auto simp: refreshUI_Err)
  next
    case (Ok ui)
    have w: "watching (fst (refreshUI lc st r))" using assms(1) by (simp add: refreshUI_watching)
    have st': "st' = fst (refreshUI lc st r)"
      using assms(2) ClickRefresh by (simp add: split_beta Let_def)
    have effs: "effs = [Call GetUiData] @ run_watchers st' (selectedSource st' \<noteq> selectedSource st) True sr"
      using assms(2) ClickRefresh Ok by (auto simp: split_beta Let_def refreshUI_effects)
    show ?thesis unfolding effs using w st'
      by (auto simp: run_watchers_def saveRoutingConfig_mem dest: saveRoutingConfig_saves)
  qed
next
  case (ClickStart r)
  with assms startRouting_frame [of lc st r] show ?thesis by (auto split: if_splits)
next
  case (ClickStop r)
  with assms stopRouting_frame [of st r] show ?thesis by (auto split: if_splits)
next
  case ClickSettings
  with assms show ?thesis by auto
next
  case CloseSettings
  with assms show ?thesis by auto
next
  case RoutingStarted
  with assms show ?thesis by (auto simp: on_routing_started_def split: if_splits)
next
  case RoutingStopped
  with assms show ?thesis by (auto simp: on_routing_stopped_def split: if_splits)
qed

text \<open>
  The card of device B is switched off while A is the source: the configuration saved lists
  A, which is the source, and B, which is disabled. The projection of the eligible and
  enabled targets is empty in that state.
\<close>

theorem save_sends_disabled_and_source:
  "snd (step tertiary
          (mounted ''A'' [device ''A'' ''Speakers'' True Stereo, device ''B'' ''Headset'' True Left])
          (ToggleEnabled 1, Ok ()))
     = [Call (SaveRoutingConfig ''A''
          [\<lparr> device_id = ''A'', channel_mode = Stereo, enabled_out = True \<rparr>,
           \<lparr> device_id = ''B'', channel_mode = Left, enabled_out = False \<rparr>])]
   \<and> spec_outputs tertiary
        (fst (step tertiary
          (mounted ''A'' [device ''A'' ''Speakers'' True Stereo, device ''B'' ''Headset'' True Left])
          (ToggleEnabled 1, Ok ()))) = []"
  by (simp add: eval_defs)

text \<open>
  C1, as the code has it: \<^verbatim>\<open>saveRoutingConfig\<close> leaves the state alone and issues one
  command, \<^verbatim>\<open>save_routing_config\<close> with the selected source and one output for every
  device of \<^verbatim>\<open>target_devices\<close>, in the order of that list, each with its id, mix mode and
  enabled flag; the source device and the disabled devices are among them. Once the
  watchers are registered, an event that changes the selected source or the device list
  saves that projection of the state it leads to, and saves nothing else.
\<close>

theorem save_hands_over_every_device:
  "fst (saveRoutingConfig st r) = st
   \<and> filter is_call (snd (saveRoutingConfig st r)) =
       [Call (SaveRoutingConfig (selectedSource st) (map output_of (target_devices st)))]
   \<and> (watching st \<and> step lc st (ev, sr) = (st', effs)
        \<and> (selectedSource st' \<noteq> selectedSource st \<or> target_devices st' \<noteq> target_devices st)
      \<longrightarrow> Call (SaveRoutingConfig (selectedSource st') (map output_of (target_devices st'))) \<in> set effs
          \<and> (\<forall>e \<in> set effs. is_save e \<longrightarrow>
               e = Call (SaveRoutingConfig (selectedSource st') (map output_of (target_devices st')))))"
  using step_saves_latest [of st lc ev sr st' effs]
  by (simp add: saveRoutingConfig_state saveRoutingConfig_calls)

theorem save_hands_over_every_device_witness:
  "watching (mounted ''A'' [device ''A'' ''Speakers'' True Stereo, device ''B'' ''Headset'' True Left])
   \<and> target_devices (fst (step tertiary
          (mounted ''A'' [device ''A'' ''Speakers'' True Stereo, device ''B'' ''Headset'' True Left])
          (UpdateMixMode 1 Right, Ok ())))
       \<noteq> [device ''A'' ''Speakers'' True Stereo, device ''B'' ''Headset'' True Left]
   \<and> Call (SaveRoutingConfig ''A''
          [\<lparr> device_id = ''A'', channel_mode = Stereo, enabled_out = True \<rparr>,
           \<lparr> device_id = ''B'', channel_mode = Right, enabled_out = True \<rparr>])
       \<in> set (snd (step tertiary
          (mounted ''A'' [device ''A'' ''Speakers'' True Stereo, device ''B'' ''Headset'' True Left])
          (UpdateMixMode 1 Right, Ok ())))"
  using save_hands_over_every_device
    [of "mounted ''A'' [device ''A'' ''Speakers'' True Stereo, device ''B'' ''Headset'' True Left]"
        "Ok ()" tertiary "UpdateMixMode 1 Right" "Ok ()"
        "fst (step tertiary
          (mounted ''A'' [device ''A'' ''Speakers'' True Stereo, device ''B'' ''Headset'' True Left])
          (UpdateMixMode 1 Right, Ok ()))"
        "snd (step tertiary
          (mounted ''A'' [device ''A'' ''Speakers'' True Stereo, device ''B'' ''Headset'' True Left])
          (UpdateMixMode 1 Right, Ok ()))"]
  by (simp add: eval_defs)

section \<open>The running flag\<close>

lemma step_isRunning:
  assumes "step lc st (ev, sr) = (st', effs)" and "isRunning st' \<noteq> isRunning st"
  shows "ev = RoutingStarted \<or> ev = RoutingStopped \<or> (\<exists>ui. ev = ClickRefresh (Ok ui))"
proof (cases ev)
  case (ClickRefresh r)
  with assms show ?thesis by (cases r) (auto simp: refreshUI_Err)
next
  case (ClickStart r)
  with assms startRouting_isRunning [of lc st r] show ?thesis by (auto split: if_splits)
next
  case (ClickStop r)
  with assms stopRouting_isRunning [of st r] show ?thesis by (auto split: if_splits)
qed (use assms in \<open>auto simp: Let_def split: if_splits\<close>)

text \<open>
  A click on refresh while idle: the back end reports that routing is active and the flag
  is set, with no \<^verbatim>\<open>routing-started\<close> event.
\<close>

theorem refresh_sets_running_flag:
  "\<not> isRunning (mounted ''A'' [device ''A'' ''Speakers'' True Stereo])
   \<and> isRunning (fst (step tertiary (mounted ''A'' [device ''A'' ''Speakers'' True Stereo])
        (ClickRefresh (Ok \<lparr> ui_target_devices = [device ''A'' ''Speakers'' True Stereo],
                             is_running = True, source_device = ''A'' \<rparr>), Ok ())))"
  by (simp add: eval_defs)

text \<open>
  C2, as the code has it: an event of the component changes \<^verbatim>\<open>isRunning\<close> only when it
  is \<^verbatim>\<open>routing-started\<close>, \<^verbatim>\<open>routing-stopped\<close> or a refresh that succeeded, which copies
  the flag the back end reports. \<^verbatim>\<open>startRouting\<close> and \<^verbatim>\<open>stopRouting\<close> leave the flag as
  it is whatever the command answers; the listeners set it to true and to false; and
  \<^verbatim>\<open>routing-stopped\<close> on an idle component leaves it idle, with no effect at the boundary.
\<close>

theorem running_flag_follows_events_and_refresh:
  "(step lc st (ev, sr) = (st', effs) \<and> isRunning st' \<noteq> isRunning st
      \<longrightarrow> ev = RoutingStarted \<or> ev = RoutingStopped \<or> (\<exists>ui. ev = ClickRefresh (Ok ui)))
   \<and> isRunning (fst (refreshUI lc st (Ok ui))) = is_running ui
   \<and> isRunning (fst (startRouting lc st r)) = isRunning st
   \<and> isRunning (fst (stopRouting st r)) = isRunning st
   \<and> isRunning (fst (step lc st (ClickStart r, sr))) = isRunning st
   \<and> isRunning (fst (step lc st (ClickStop r, sr))) = isRunning st
   \<and> (unlistenStart st \<longrightarrow> isRunning (fst (step lc st (RoutingStarted, sr))))
   \<and> (unlistenStop st \<longrightarrow> \<not> isRunning (fst (step lc st (RoutingStopped, sr))))
   \<and> (\<not> isRunning st \<longrightarrow>
        \<not> isRunning (fst (step lc st (RoutingStopped, sr))) \<and> snd (step lc st (RoutingStopped, sr)) = [])"
  using step_isRunning [of lc st ev sr st' effs]
  by (simp add: refreshUI_isRunning startRouting_isRunning stopRouting_isRunning
      on_routing_started_def on_routing_stopped_def)

theorem running_flag_follows_events_and_refresh_witness:
  "step tertiary (mounted ''A'' [device ''A'' ''Speakers'' True Stereo]) (RoutingStarted, Ok ())
     = ((mounted ''A'' [device ''A'' ''Speakers'' True Stereo])
          \<lparr> isRunning := True, statusText := RunningOn 0 \<rparr>, [])
   \<and> isRunning (fst (step tertiary (mounted ''A'' [device ''A'' ''Speakers'' True Stereo])
        (RoutingStarted, Ok ())))
       \<noteq> isRunning (mounted ''A'' [device ''A'' ''Speakers'' True Stereo])
   \<and> unlistenStop (mounted ''A'' [device ''A'' ''Speakers'' True Stereo])
   \<and> \<not> isRunning (fst (step tertiary (mounted ''A'' [device ''A'' ''Speakers'' True Stereo])
        (RoutingStopped, Ok ())))
   \<and> snd (step tertiary (mounted ''A'' [device ''A'' ''Speakers'' True Stereo])
        (RoutingStopped, Ok ())) = []
   \<and> \<not> isRunning (fst (step tertiary (mounted ''A'' [device ''A'' ''Speakers'' True Stereo])
        (ClickStart (Ok ()), Ok ())))"
  using running_flag_follows_events_and_refresh
    [of tertiary "mounted ''A'' [device ''A'' ''Speakers'' True Stereo]" RoutingStarted "Ok ()"
        "(mounted ''A'' [device ''A'' ''Speakers'' True Stereo])
          \<lparr> isRunning := True, statusText := RunningOn 0 \<rparr>" "[]"
        "\<lparr> ui_target_devices = [], is_running = False, source_device = '''' \<rparr>" "Ok ()"]
  by (simp add: eval_defs on_routing_started_def)

section \<open>Starting\<close>

text \<open>
  C3: when no device is both eligible (not the source) and enabled, \<^verbatim>\<open>startRouting\<close>
  issues no command, changes only the status, to the "select a device" message, and leaves
  the running flag as it is: an idle component stays idle, whatever the engine would have
  answered.
\<close>

theorem start_without_targets:
  assumes "filter enabled (filtered_target_devices lc st) = []"
  shows "startRouting lc st r = (st\<lparr> statusText := SelectDevice \<rparr>, [])
     \<and> filter is_call (snd (startRouting lc st r)) = []
     \<and> isRunning (fst (startRouting lc st r)) = isRunning st
     \<and> (\<not> isRunning st \<longrightarrow>
          step lc st (ClickStart r, sr) = (st\<lparr> statusText := SelectDevice \<rparr>, [])
          \<and> \<not> isRunning (fst (step lc st (ClickStart r, sr))))"
  using assms by (simp add: startRouting_def start_targets_def)

theorem start_without_targets_witness:
  "filter enabled (filtered_target_devices tertiary (mounted ''A'' [device ''A'' ''Mic'' True Stereo])) = []
   \<and> step tertiary (mounted ''A'' [device ''A'' ''Mic'' True Stereo]) (ClickStart (Ok ()), Ok ())
       = ((mounted ''A'' [device ''A'' ''Mic'' True Stereo]) \<lparr> statusText := SelectDevice \<rparr>, [])
   \<and> \<not> isRunning (fst (step tertiary (mounted ''A'' [device ''A'' ''Mic'' True Stereo])
          (ClickStart (Ok ()), Ok ())))"
  using start_without_targets
    [of tertiary "mounted ''A'' [device ''A'' ''Mic'' True Stereo]" "Ok ()" "Ok ()"]
  by (simp add: eval_defs)

lemma start_targets_filter:
  "start_targets lc st =
     map (\<lambda>d. (id' d, mix_mode d))
       (filter (\<lambda>d. enabled d \<and> id' d \<noteq> selectedSource st) (sorted_target_devices lc st))"
  by (simp add: start_targets_def filtered_target_devices_def conj_commute)

lemma mset_start_targets:
  "mset (start_targets lc st) =
     image_mset (\<lambda>d. (id' d, mix_mode d))
       (filter_mset (\<lambda>d. enabled d \<and> id' d \<noteq> selectedSource st) (mset (target_devices st)))"
  by (simp add: start_targets_filter sorted_target_devices_def mset_array_sort)

lemma set_start_targets:
  "set (start_targets lc st) =
     (\<lambda>d. (id' d, mix_mode d)) `
       {d \<in> set (target_devices st). enabled d \<and> id' d \<noteq> selectedSource st}"
  by (simp add: start_targets_filter sorted_target_devices_def set_array_sort)

lemma startRouting_call:
  assumes "start_targets lc st \<noteq> []"
  shows "snd (startRouting lc st r) =
     [Call (StartRouting \<lparr> source_id = selectedSource st, targets = start_targets lc st \<rparr>)]"
  using assms by (cases r) (simp_all add: startRouting_def Let_def)

text \<open>
  C4: when some device is eligible and enabled, \<^verbatim>\<open>startRouting\<close> issues one command,
  \<^verbatim>\<open>start_routing\<close> with the selected source and the targets; the targets are the pairs
  (id, mix mode) of the devices that are enabled and are not the source, in display order,
  each as often as the device list has it; no pair carries the id of the source and no pair
  comes from a disabled device.
\<close>

theorem start_payload:
  assumes "filter enabled (filtered_target_devices lc st) \<noteq> []"
  shows "snd (startRouting lc st r) =
       [Call (StartRouting \<lparr> source_id = selectedSource st, targets = start_targets lc st \<rparr>)]
     \<and> start_targets lc st =
         map (\<lambda>d. (id' d, mix_mode d))
           (filter (\<lambda>d. enabled d \<and> id' d \<noteq> selectedSource st) (sorted_target_devices lc st))
     \<and> mset (start_targets lc st) =
         image_mset (\<lambda>d. (id' d, mix_mode d))
           (filter_mset (\<lambda>d. enabled d \<and> id' d \<noteq> selectedSource st) (mset (target_devices st)))
     \<and> set (start_targets lc st) =
         (\<lambda>d. (id' d, mix_mode d)) `
           {d \<in> set (target_devices st). enabled d \<and> id' d \<noteq> selectedSource st}
     \<and> (\<forall>p \<in> set (start_targets lc st). fst p \<noteq> selectedSource st)"
proof -
  have "start_targets lc st \<noteq> []" using assms by (simp add: start_targets_def)
  then have call: "snd (startRouting lc st r) =
      [Call (StartRouting \<lparr> source_id = selectedSource st, targets = start_targets lc st \<rparr>)]"
    by (rule startRouting_call)
  have no_source: "\<forall>p \<in> set (start_targets lc st). fst p \<noteq> selectedSource st"
    unfolding set_start_targets by auto
  show ?thesis
    using call no_source start_targets_filter [of lc st] mset_start_targets [of lc st]
      set_start_targets [of lc st]
    by blast
qed

theorem start_payload_witness:
  "filter enabled (filtered_target_devices tertiary
      (mounted ''A'' [device ''B'' ''Headset'' True Stereo, device ''C'' ''Monitor'' False Left])) \<noteq> []
   \<and> snd (startRouting tertiary
        (mounted ''A'' [device ''B'' ''Headset'' True Stereo, device ''C'' ''Monitor'' False Left])
        (Ok ()))
       = [Call (StartRouting \<lparr> source_id = ''A'', targets = [(''B'', Stereo)] \<rparr>)]"
  using start_payload
    [of tertiary "mounted ''A'' [device ''B'' ''Headset'' True Stereo, device ''C'' ''Monitor'' False Left]"
        "Ok ()"]
  by (simp add: eval_defs)

section \<open>The computed lists\<close>

text \<open>
  C6: the eligible targets are the sorted device list without the devices whose id is the
  selected source: every other device of \<^verbatim>\<open>target_devices\<close> is there, as often as in that
  list, none is added, and the order is that of the sorted list.
\<close>

theorem eligible_targets:
  "filtered_target_devices lc st =
       filter (\<lambda>d. id' d \<noteq> selectedSource st) (sorted_target_devices lc st)
   \<and> mset (sorted_target_devices lc st) = mset (target_devices st)
   \<and> mset (filtered_target_devices lc st) =
       filter_mset (\<lambda>d. id' d \<noteq> selectedSource st) (mset (target_devices st))
   \<and> set (filtered_target_devices lc st) =
       {d \<in> set (target_devices st). id' d \<noteq> selectedSource st}
   \<and> (consistent lc \<longrightarrow>
        sorted_wrt (\<lambda>a b. lc (name a) (name b) \<le> 0) (sorted_target_devices lc st)
        \<and> sorted_wrt (\<lambda>a b. lc (name a) (name b) \<le> 0) (filtered_target_devices lc st))"
proof -
  have srt: "sorted_wrt (\<lambda>a b. lc (name a) (name b) \<le> 0) (sorted_target_devices lc st)"
    if "consistent lc"
    using sorted_array_sort [OF consistent_by_name [OF that], of "target_devices st"]
    by (simp add: sorted_target_devices_def by_name_def)
  have flt: "sorted_wrt (\<lambda>a b. lc (name a) (name b) \<le> 0) (filtered_target_devices lc st)"
    if "consistent lc"
    unfolding filtered_target_devices_def by (rule sorted_wrt_filter) (rule srt [OF that])
  show ?thesis using srt flt
    by (auto simp: filtered_target_devices_def sorted_target_devices_def mset_array_sort
        set_array_sort)
qed

theorem eligible_targets_witness:
  "consistent tertiary
   \<and> filtered_target_devices tertiary
        (mounted ''B'' [device ''C'' ''zLine'' True Stereo, device ''B'' ''Mic'' True Stereo,
                        device ''A'' ''Aux'' False Left])
       = [device ''A'' ''Aux'' False Left, device ''C'' ''zLine'' True Stereo]"
  using eligible_targets
    [of tertiary "mounted ''B'' [device ''C'' ''zLine'' True Stereo, device ''B'' ''Mic'' True Stereo,
                        device ''A'' ''Aux'' False Left]"]
  by (simp add: eval_defs consistent_tertiary)

section \<open>Refreshing\<close>

text \<open>
  C10: a refresh that succeeds with an empty device list leaves the selected source as it
  was and makes the device list empty; a refresh that fails changes the status and nothing
  else, so the selected source and the device list are as before.
\<close>

theorem refresh_frame:
  "(ui_target_devices ui = [] \<longrightarrow>
      selectedSource (fst (refreshUI lc st (Ok ui))) = selectedSource st
      \<and> target_devices (fst (refreshUI lc st (Ok ui))) = [])
   \<and> refreshUI lc st (Err e) = (st\<lparr> statusText := ErrorLoadingDevices \<rparr>, [Call GetUiData])
   \<and> selectedSource (fst (refreshUI lc st (Err e))) = selectedSource st
   \<and> target_devices (fst (refreshUI lc st (Err e))) = target_devices st"
  by (simp add: refreshUI_def)

theorem refresh_frame_witness:
  "ui_target_devices \<lparr> ui_target_devices = [], is_running = False, source_device = ''B'' \<rparr> = []
   \<and> refreshUI tertiary (mounted ''B'' [device ''B'' ''Mic'' True Stereo])
        (Ok \<lparr> ui_target_devices = [], is_running = False, source_device = ''B'' \<rparr>)
       = ((mounted ''B'' [device ''B'' ''Mic'' True Stereo])
            \<lparr> target_devices := [], statusText := FoundDevices 0 \<rparr>, [Call GetUiData])
   \<and> selectedSource (fst (refreshUI tertiary (mounted ''B'' [device ''B'' ''Mic'' True Stereo])
        (Ok \<lparr> ui_target_devices = [], is_running = False, source_device = ''B'' \<rparr>))) = ''B''"
  using refresh_frame
    [of "\<lparr> ui_target_devices = [], is_running = False, source_device = ''B'' \<rparr>"
        tertiary "mounted ''B'' [device ''B'' ''Mic'' True Stereo]"]
  by (simp add: eval_defs)







section \<open>Mounting and the first save\<close>

lemma onMounted_mount: "onMounted lc st r = mount lc st [] r []"
  by (simp add: onMounted_def mount_def split_beta)

lemma initial_off: "\<not> watching initial"
  by (simp add: initial_def)

lemma mount_no_save:
  assumes "\<not> watching st"
  shows "filter is_save (snd (mount lc st before r after)) = []"
proof -
  have 1: "\<not> watching (fst (run lc st before))" using assms by (simp add: run_watching)
  then have 2: "\<not> watching (fst (refreshUI lc (fst (run lc st before)) r))"
    by (simp add: refreshUI_watching)
  show ?thesis
    using run_off_no_save [OF assms, of lc before] run_off_no_save [OF 2, of lc after]
    by (simp add: mount_def split_beta refreshUI_effects)
qed

lemma mount_watching: "watching (fst (mount lc st before r after))"
  by (simp add: mount_def split_beta register_observers_def)

text \<open>
  C7, as the code has it: from the start of the component through \<^verbatim>\<open>onMounted\<close>, whatever
  the refresh answers and whatever events are served while it awaits, no
  \<^verbatim>\<open>save_routing_config\<close> is issued; the command of \<^verbatim>\<open>onMounted\<close> itself is the one
  \<^verbatim>\<open>get_ui_data\<close>. The watchers are not registered when the first refresh completes and
  are registered when \<^verbatim>\<open>onMounted\<close> ends, after a refresh that succeeded and after one that
  failed alike. From then on, events that do not write the selected source or the device
  list save nothing.
\<close>

theorem no_save_before_first_mutation:
  assumes "\<forall>e \<in> set quiet. \<not> mutating (fst e)"
  shows "filter is_save (snd (mount lc initial before r after)) = []
     \<and> snd (onMounted lc initial r) = [Call GetUiData]
     \<and> \<not> watching (fst (refreshUI lc (fst (run lc initial before)) r))
     \<and> watching (fst (mount lc initial before r after))
     \<and> watching (fst (onMounted lc initial r))
     \<and> filter is_save (snd (run lc (fst (mount lc initial before r after)) quiet)) = []"
proof -
  have "\<not> watching (fst (refreshUI lc (fst (run lc initial before)) r))"
    using initial_off by (simp add: refreshUI_watching run_watching)
  moreover have "snd (onMounted lc initial r) = [Call GetUiData]"
    by (simp add: onMounted_def split_beta refreshUI_effects)
  moreover have "watching (fst (onMounted lc initial r))"
    unfolding onMounted_mount by (rule mount_watching)
  ultimately show ?thesis
    using mount_no_save [OF initial_off, of lc before r after]
      mount_watching [of lc initial before r after]
      run_quiet_no_save [OF assms, of lc "fst (mount lc initial before r after)"]
    by simp
qed

theorem no_save_before_first_mutation_witness:
  "\<not> mutating (ClickStart (Ok ())) \<and> \<not> mutating RoutingStarted
   \<and> snd (mount tertiary initial [(ClickStart (Ok ()), Ok ())]
        (Ok \<lparr> ui_target_devices = [device ''B'' ''Headset'' True Stereo, device ''A'' ''Aux'' True Stereo],
              is_running = False, source_device = ''A'' \<rparr>)
        [(ToggleEnabled 0, Ok ())])
       = [Call GetUiData]
   \<and> filter is_save (snd (run tertiary
        (fst (mount tertiary initial [(ClickStart (Ok ()), Ok ())]
          (Ok \<lparr> ui_target_devices = [device ''B'' ''Headset'' True Stereo, device ''A'' ''Aux'' True Stereo],
                is_running = False, source_device = ''A'' \<rparr>)
          [(ToggleEnabled 0, Ok ())]))
        [(ClickStart (Ok ()), Ok ()), (RoutingStarted, Ok ())])) = []"
  using no_save_before_first_mutation
    [of "[(ClickStart (Ok ()), Ok ()), (RoutingStarted, Ok ())]" tertiary
        "[(ClickStart (Ok ()), Ok ())]"
        "Ok \<lparr> ui_target_devices = [device ''B'' ''Headset'' True Stereo, device ''A'' ''Aux'' True Stereo],
              is_running = False, source_device = ''A'' \<rparr>"
        "[(ToggleEnabled 0, Ok ())]"]
  by (simp add: eval_defs mount_def)

text \<open>
  The first refresh fails: there has been no successful refresh, and at the end of
  \<^verbatim>\<open>onMounted\<close> the watchers and the listeners are registered.
\<close>

theorem observers_registered_after_failed_refresh:
  "onMounted tertiary initial (Err ''engine unreachable'')
     = (initial\<lparr> statusText := ErrorLoadingDevices, watching := True,
                  unlistenStart := True, unlistenStop := True \<rparr>, [Call GetUiData])
   \<and> watching (fst (onMounted tertiary initial (Err ''engine unreachable'')))"
  by (simp add: onMounted_def refreshUI_def register_observers_def initial_def)

section \<open>The display order\<close>






section \<open>Committing the settings\<close>

text \<open>
  C9: when the save command answers ok, the committed settings are the draft; then the
  locale is set to the language of the draft ("en" when it has none) and the tray menu is
  given the labels of that language, in this order. When the tray command fails the
  error is written to the console and the modal stays open: the committed settings are
  still the draft, the locale is still the new one, and no further command is issued.
  When the save command itself fails nothing but the console line follows. Closing the
  modal emits "close": no command, the settings as they were.
\<close>

theorem settings_commit:
  "updateGeneralConfig tr w (Ok ()) (Ok ())
     = (w\<lparr> committed := draftGeneral w, i18n_locale := commit_language w \<rparr>,
        commit_effects tr w @ [Emit ''close''])
   \<and> updateGeneralConfig tr w (Ok ()) (Err e)
     = (w\<lparr> committed := draftGeneral w, i18n_locale := commit_language w \<rparr>,
        commit_effects tr w @ [ConsoleError ''Failed to save config:'' e])
   \<and> committed (fst (updateGeneralConfig tr w (Ok ()) r_tray)) = draftGeneral w
   \<and> i18n_locale (fst (updateGeneralConfig tr w (Ok ()) r_tray)) = commit_language w
   \<and> take 3 (snd (updateGeneralConfig tr w (Ok ()) r_tray)) = commit_effects tr w
   \<and> filter is_call (snd (updateGeneralConfig tr w (Ok ()) r_tray)) = filter is_call (commit_effects tr w)
   \<and> updateGeneralConfig tr w (Err e) r_tray
     = (w, [Call (UpdateGeneralConfig (draftGeneral w)), ConsoleError ''Failed to save config:'' e])
   \<and> cancel w = (w, [Emit ''close''])
   \<and> filter is_call (snd (cancel w)) = []
   \<and> committed (fst (cancel w)) = committed w"
proof -
  have tray: "r_tray = Ok () \<or> (\<exists>m. r_tray = Err m)" by (cases r_tray) simp_all
  have ok: "updateGeneralConfig tr w (Ok ()) (Ok ())
     = (w\<lparr> committed := draftGeneral w, i18n_locale := commit_language w \<rparr>,
        commit_effects tr w @ [Emit ''close''])"
    by (simp add: updateGeneralConfig_def updateAppLanguage_def commit_effects_def
        commit_language_def Let_def)
  have err: "updateGeneralConfig tr w (Ok ()) (Err m)
     = (w\<lparr> committed := draftGeneral w, i18n_locale := commit_language w \<rparr>,
        commit_effects tr w @ [ConsoleError ''Failed to save config:'' m])" for m
    by (simp add: updateGeneralConfig_def updateAppLanguage_def commit_effects_def
        commit_language_def Let_def)
  have len: "length (commit_effects tr w) = 3" by (simp add: commit_effects_def)
  have fail: "updateGeneralConfig tr w (Err e) r_tray
     = (w, [Call (UpdateGeneralConfig (draftGeneral w)), ConsoleError ''Failed to save config:'' e])"
    by (simp add: updateGeneralConfig_def)
  have any: "committed (fst (updateGeneralConfig tr w (Ok ()) r_tray)) = draftGeneral w
     \<and> i18n_locale (fst (updateGeneralConfig tr w (Ok ()) r_tray)) = commit_language w
     \<and> take 3 (snd (updateGeneralConfig tr w (Ok ()) r_tray)) = commit_effects tr w
     \<and> filter is_call (snd (updateGeneralConfig tr w (Ok ()) r_tray))
         = filter is_call (commit_effects tr w)"
    using tray ok err len by auto
  show ?thesis using ok err [of e] any fail by (simp add: cancel_def)
qed

theorem settings_commit_witness:
  "updateGeneralConfig (\<lambda>l k. l @ '':'' @ k)
      \<lparr> draftGeneral = \<lparr> start_with_windows = True, minimized = False, auto_route = True,
                          language = ''zh'' \<rparr>,
        committed = \<lparr> start_with_windows = False, minimized = False, auto_route = False,
                       language = ''en'' \<rparr>,
        i18n_locale = ''en'' \<rparr>
      (Ok ()) (Err ''tray unavailable'')
     = (\<lparr> draftGeneral = \<lparr> start_with_windows = True, minimized = False, auto_route = True,
                            language = ''zh'' \<rparr>,
          committed = \<lparr> start_with_windows = True, minimized = False, auto_route = True,
                         language = ''zh'' \<rparr>,
          i18n_locale = ''zh'' \<rparr>,
        [Call (UpdateGeneralConfig \<lparr> start_with_windows = True, minimized = False,
                                     auto_route = True, language = ''zh'' \<rparr>),
         SetLocale ''zh'',
         Call (UpdateTrayMenu \<lparr> show_label = ''zh:Show'', quit_label = ''zh:Exit'' \<rparr>),
         ConsoleError ''Failed to save config:'' ''tray unavailable''])"
  using settings_commit
    [of "\<lambda>l k. l @ '':'' @ k"
        "\<lparr> draftGeneral = \<lparr> start_with_windows = True, minimized = False, auto_route = True,
                          language = ''zh'' \<rparr>,
          committed = \<lparr> start_with_windows = False, minimized = False, auto_route = False,
                       language = ''en'' \<rparr>,
          i18n_locale = ''en'' \<rparr>" "''tray unavailable''" "Ok ()"]
  by (simp add: commit_effects_def commit_language_def)

end
